theory Spec2Isabelle
  imports Complex_Main
begin

section \<open>JavaScript values used by the engine\<close>

text \<open>
  What a \<^verbatim>\<open>catch (error)\<close> clause receives: an \<^verbatim>\<open>Error\<close> instance with its message, or
  some other thrown value. Every function that can throw returns \<open>exn + 'a\<close>, with \<open>Inl\<close>
  for the throw.
\<close>

datatype exn = Error string | NonError

subsection \<open>Strings\<close>

text \<open>
  Strings are lists of characters, one per code unit; the model covers ASCII content, so
  \<^verbatim>\<open>toLowerCase\<close> maps \<^verbatim>\<open>A-Z\<close> to \<^verbatim>\<open>a-z\<close> and the class \<^verbatim>\<open>\s\<close> (also what
  \<^verbatim>\<open>trim\<close> removes) is tab, line feed, vertical tab, form feed, carriage return and space.
\<close>

definition LF :: char where
  "LF = CHR 0x0A"

definition DQUOTE :: char where
  "DQUOTE = CHR 0x22"

definition toLowerCase_char :: "char \<Rightarrow> char" where
  "toLowerCase_char c =
     (case map_of (zip ''ABCDEFGHIJKLMNOPQRSTUVWXYZ'' ''abcdefghijklmnopqrstuvwxyz'') c of
        Some l \<Rightarrow> l
      | None \<Rightarrow> c)"

definition toLowerCase :: "string \<Rightarrow> string" where
  "toLowerCase s = map toLowerCase_char s"

definition isSpace :: "char \<Rightarrow> bool" where
  "isSpace c = (c \<in> set [CHR 0x09, CHR 0x0A, CHR 0x0B, CHR 0x0C, CHR 0x0D, CHR 0x20])"

definition trim :: "string \<Rightarrow> string" where
  "trim s = rev (dropWhile isSpace (rev (dropWhile isSpace s)))"

text \<open>\<^verbatim>\<open>s.split("\n")\<close>: the pieces between line feeds, in order; never an empty array.\<close>

fun split_lf_acc :: "string \<Rightarrow> string \<Rightarrow> string list" where
  "split_lf_acc cur [] = [rev cur]"
| "split_lf_acc cur (c # cs) =
     (if c = LF then rev cur # split_lf_acc [] cs else split_lf_acc (c # cur) cs)"

definition split_lf :: "string \<Rightarrow> string list" where
  "split_lf s = split_lf_acc [] s"

text \<open>\<^verbatim>\<open>xs[i]\<close> on an array: \<^verbatim>\<open>undefined\<close> out of range, here \<open>None\<close>.\<close>

fun index_opt :: "'a list \<Rightarrow> nat \<Rightarrow> 'a option" where
  "index_opt [] i = None"
| "index_opt (x # xs) 0 = Some x"
| "index_opt (x # xs) (Suc i) = index_opt xs i"

text \<open>\<^verbatim>\<open>xs.join(" ")\<close>.\<close>

fun join_space :: "string list \<Rightarrow> string" where
  "join_space [] = []"
| "join_space [x] = x"
| "join_space (x # y # ys) = x @ '' '' @ join_space (y # ys)"

section \<open>Content parser (convex/canvas.ts, lib/tiptap/wiki-link.ts)\<close>

subsection \<open>The regular expressions\<close>

text \<open>
  \<^verbatim>\<open>/\[\[([^\]]+)\]\]/\<close> tried at the start of a string: two opening brackets, the longest
  run of characters other than a closing bracket, which must not be empty, and two closing
  brackets. (A shorter run cannot match, since the character after it is not a closing
  bracket.) The result is the captured group and the text after the match.
\<close>

fun match_raw_at :: "string \<Rightarrow> (string \<times> string) option" where
  "match_raw_at (a # b # t) =
     (if a = CHR ''['' \<and> b = CHR ''[''
      then (let cap = takeWhile (\<lambda>c. c \<noteq> CHR '']'') t;
                r = dropWhile (\<lambda>c. c \<noteq> CHR '']'') t
            in (case r of
                  c1 # c2 # rest \<Rightarrow>
                    if cap \<noteq> [] \<and> c1 = CHR '']'' \<and> c2 = CHR '']''
                    then Some (cap, rest) else None
                | _ \<Rightarrow> None))
      else None)"
| "match_raw_at _ = None"

text \<open>
  \<^verbatim>\<open>/data-title="([^"]+)"/\<close> tried at the start of a string: the attribute name, a
  non-empty longest run of characters other than a double quote, and the closing quote.
\<close>

definition match_html_at :: "string \<Rightarrow> (string \<times> string) option" where
  "match_html_at s =
     (let p = ''data-title='' @ [DQUOTE] in
      if take (length p) s = p
      then (let t = drop (length p) s;
                cap = takeWhile (\<lambda>c. c \<noteq> DQUOTE) t;
                r = dropWhile (\<lambda>c. c \<noteq> DQUOTE) t
            in (case r of
                  q # rest \<Rightarrow> if cap \<noteq> [] then Some (cap, rest) else None
                | [] \<Rightarrow> None))
      else None)"

text \<open>
  The loop \<^verbatim>\<open>while ((match = re.exec(content)) !== null)\<close> of a global regular expression:
  the leftmost match at or after \<^verbatim>\<open>lastIndex\<close>, then on from the end of that match. The
  function returns the captured groups in the order the loop sees them.
\<close>

function raw_exec_all :: "string \<Rightarrow> string list" where
  "raw_exec_all [] = []"
| "raw_exec_all (c # cs) =
     (case match_raw_at (c # cs) of
        Some (cap, rest) \<Rightarrow> cap # raw_exec_all rest
      | None \<Rightarrow> raw_exec_all cs)"
  by pat_completeness auto
termination
proof -
  have shorter: "length rest < length s" if "match_raw_at s = Some (cap, rest)"
    for s cap rest
  proof (cases s rule: match_raw_at.cases)
    case (1 a b t)
    have "length (dropWhile (\<lambda>c. c \<noteq> CHR '']'') t) \<le> length t"
      by (rule length_dropWhile_le)
    with that 1 show ?thesis
      by (auto simp: Let_def split: if_splits list.splits)
  qed (insert that, simp_all)
  show ?thesis
    by (relation "measure length") (auto dest: shorter)
qed

function html_exec_all :: "string \<Rightarrow> string list" where
  "html_exec_all [] = []"
| "html_exec_all (c # cs) =
     (case match_html_at (c # cs) of
        Some (cap, rest) \<Rightarrow> cap # html_exec_all rest
      | None \<Rightarrow> html_exec_all cs)"
  by pat_completeness auto
termination
proof -
  have shorter: "length rest < length s" if m: "match_html_at s = Some (cap, rest)"
    for s cap rest
  proof -
    let ?t = "drop (length (''data-title='' @ [DQUOTE])) s"
    have "length (dropWhile (\<lambda>c. c \<noteq> DQUOTE) ?t) \<le> length ?t"
      by (rule length_dropWhile_le)
    moreover have "length ?t \<le> length s"
      by simp
    ultimately show ?thesis
      using m by (auto simp: match_html_at_def Let_def split: if_splits list.splits)
  qed
  show ?thesis
    by (relation "measure length") (auto dest: shorter)
qed

text \<open>
  \<^verbatim>\<open>s.replace(/<[^>]*>/g, "")\<close>: a tag opens at \<^verbatim>\<open><\<close> and closes at the next \<^verbatim>\<open>>\<close>; every
  character between them, line feeds included, belongs to it.
\<close>

function stripTags :: "string \<Rightarrow> string" where
  "stripTags [] = []"
| "stripTags (c # cs) =
     (if c = CHR ''<'' \<and> CHR ''>'' \<in> set cs
      then stripTags (tl (dropWhile (\<lambda>d. d \<noteq> CHR ''>'') cs))
      else c # stripTags cs)"
  by pat_completeness auto
termination
proof (relation "measure length")
  fix c :: char and cs :: string
  have "length (tl (dropWhile (\<lambda>d. d \<noteq> CHR ''>'') cs)) \<le> length cs"
    using length_dropWhile_le [of "\<lambda>d. d \<noteq> CHR ''>''" cs] by simp
  then show "(tl (dropWhile (\<lambda>d. d \<noteq> CHR ''>'') cs), c # cs) \<in> measure length"
    by simp
qed simp_all

text \<open>\<^verbatim>\<open>s.replace(/^#\s*/, "")\<close>: one leading \<^verbatim>\<open>#\<close> and the white space after it.\<close>

fun stripHeading :: "string \<Rightarrow> string" where
  "stripHeading [] = []"
| "stripHeading (c # cs) = (if c = CHR ''#'' then dropWhile isSpace cs else c # cs)"

subsection \<open>extractNoteTitle and the two link extractors\<close>

definition extractNoteTitle :: "string \<Rightarrow> exn + string" where
  "extractNoteTitle content =
     (case index_opt (split_lf content) 0 of
        None \<Rightarrow> Inl (Error ''Cannot read properties of undefined'')
      | Some firstLine \<Rightarrow>
          (let cleanLine = stripTags firstLine;
               t = trim (stripHeading cleanLine)
           in Inr (if t = [] then ''Untitled'' else t)))"

text \<open>
  The second loop of both extractors: a captured title is pushed unless
  \<^verbatim>\<open>links.includes(title)\<close>.
\<close>

fun push_new :: "string list \<Rightarrow> string list \<Rightarrow> string list" where
  "push_new links [] = links"
| "push_new links (t # ts) = push_new (if t \<in> set links then links else links @ [t]) ts"

text \<open>Server side (convex/canvas.ts): every captured title is lower-cased.\<close>

definition extractWikiLinksFromContent :: "string \<Rightarrow> string list" where
  "extractWikiLinksFromContent content =
     push_new (map toLowerCase (raw_exec_all content))
              (map toLowerCase (html_exec_all content))"

text \<open>Editor side (lib/tiptap/wiki-link.ts): the same two loops on the titles as written.\<close>

definition extractWikiLinks :: "string \<Rightarrow> string list" where
  "extractWikiLinks content = push_new (raw_exec_all content) (html_exec_all content)"

subsection \<open>The title as the specification words it\<close>

text \<open>
  Specification, section 4.1: strip markup tags, take the first remaining line, strip a
  leading heading marker, trim, and return \<^verbatim>\<open>"Untitled"\<close> if the result is empty.
\<close>

definition spec_extractTitle :: "string \<Rightarrow> string" where
  "spec_extractTitle content =
     (let t = trim (stripHeading (takeWhile (\<lambda>c. c \<noteq> LF) (stripTags content)))
      in if t = [] then ''Untitled'' else t)"

text \<open>The same steps with the first line taken before the tags are stripped.\<close>

definition first_line_title :: "string \<Rightarrow> string" where
  "first_line_title content =
     (let t = trim (stripHeading (stripTags (takeWhile (\<lambda>c. c \<noteq> LF) content)))
      in if t = [] then ''Untitled'' else t)"

section \<open>The document store\<close>

text \<open>
  The tables of convex/schema.ts that the engine reads and writes. Document ids are
  natural numbers handed out by one counter; JavaScript numbers that are positions,
  sizes, durations and scores are reals, and \<^verbatim>\<open>Date.now()\<close> readings are integers.
\<close>

datatype node_type = Text | ChatReference | Note

datatype source_type = Manual | Voice | Chat | AiExtracted | Web | Youtube | Readwise

text \<open>The status of a voice note; \<open>Failed\<close> is the status \<^verbatim>\<open>"error"\<close>.\<close>

datatype voice_status = Recording | Uploaded | Transcribing | Processing | Completed | Failed

record canvasNode =
  node_id :: nat
  node_type :: node_type
  content :: string
  pos_x :: real
  pos_y :: real
  width :: real
  height :: real
  messageId :: "nat option"
  conversationId :: "nat option"
  sourceType :: "source_type option"
  sourceId :: "nat option"
  sourceUrl :: "string option"
  parentNodeId :: "nat option"
  outgoingLinks :: "string list option"
  embedding :: "real list option"
  createdAt :: int
  updatedAt :: int

record canvasEdge =
  edge_id :: nat
  source :: nat
  target :: nat
  label :: "string option"
  edge_createdAt :: int

record voiceNote =
  vn_id :: nat
  userId :: string
  fileId :: nat
  duration :: real
  transcription :: "string option"
  status :: voice_status
  errorMessage :: "string option"
  vn_createdAt :: int
  vn_updatedAt :: int

record db =
  canvasNodes :: "canvasNode list"
  canvasEdges :: "canvasEdge list"
  voiceNotes :: "voiceNote list"
  nextId :: nat

text \<open>
  \<^verbatim>\<open>ctx.db\<close> is the store's own interface, not code of the repository. It is modelled by
  its contract: \<^verbatim>\<open>insert\<close> appends the document under a fresh id and returns the id,
  \<^verbatim>\<open>get\<close> returns the document or \<^verbatim>\<open>null\<close>, \<^verbatim>\<open>collect\<close> lists a table in insertion
  order, and \<^verbatim>\<open>patch\<close> and \<^verbatim>\<open>delete\<close> throw on an id that has no document (the
  not-found failures of the specification's table of operations). A mutation is one
  transaction: when it throws, nothing it wrote is kept, so a mutation returns either
  the exception or its result with the new store.
\<close>

definition db_get_node :: "nat \<Rightarrow> db \<Rightarrow> canvasNode option" where
  "db_get_node i d = find (\<lambda>n. node_id n = i) (canvasNodes d)"

definition db_insert_node :: "canvasNode \<Rightarrow> db \<Rightarrow> nat \<times> db" where
  "db_insert_node doc d =
     (nextId d,
      d\<lparr>canvasNodes := canvasNodes d @ [doc\<lparr>node_id := nextId d\<rparr>],
        nextId := Suc (nextId d)\<rparr>)"

definition db_patch_node :: "nat \<Rightarrow> (canvasNode \<Rightarrow> canvasNode) \<Rightarrow> db \<Rightarrow> exn + db" where
  "db_patch_node i f d =
     (if i \<in> set (map node_id (canvasNodes d))
      then Inr (d\<lparr>canvasNodes := map (\<lambda>n. if node_id n = i then f n else n) (canvasNodes d)\<rparr>)
      else Inl (Error ''Update on nonexistent document ID''))"

definition db_delete_node :: "nat \<Rightarrow> db \<Rightarrow> exn + db" where
  "db_delete_node i d =
     (if i \<in> set (map node_id (canvasNodes d))
      then Inr (d\<lparr>canvasNodes := filter (\<lambda>n. node_id n \<noteq> i) (canvasNodes d)\<rparr>)
      else Inl (Error ''Delete on nonexistent document ID''))"

definition db_insert_edge :: "canvasEdge \<Rightarrow> db \<Rightarrow> nat \<times> db" where
  "db_insert_edge doc d =
     (nextId d,
      d\<lparr>canvasEdges := canvasEdges d @ [doc\<lparr>edge_id := nextId d\<rparr>],
        nextId := Suc (nextId d)\<rparr>)"

definition db_delete_edge :: "nat \<Rightarrow> db \<Rightarrow> exn + db" where
  "db_delete_edge i d =
     (if i \<in> set (map edge_id (canvasEdges d))
      then Inr (d\<lparr>canvasEdges := filter (\<lambda>e. edge_id e \<noteq> i) (canvasEdges d)\<rparr>)
      else Inl (Error ''Delete on nonexistent document ID''))"

definition db_get_voiceNote :: "nat \<Rightarrow> db \<Rightarrow> voiceNote option" where
  "db_get_voiceNote i d = find (\<lambda>v. vn_id v = i) (voiceNotes d)"

definition db_patch_voiceNote :: "nat \<Rightarrow> (voiceNote \<Rightarrow> voiceNote) \<Rightarrow> db \<Rightarrow> exn + db" where
  "db_patch_voiceNote i f d =
     (if i \<in> set (map vn_id (voiceNotes d))
      then Inr (d\<lparr>voiceNotes := map (\<lambda>v. if vn_id v = i then f v else v) (voiceNotes d)\<rparr>)
      else Inl (Error ''Update on nonexistent document ID''))"

section \<open>Node and edge repository (convex/canvas.ts)\<close>

definition listNodes :: "db \<Rightarrow> canvasNode list" where
  "listNodes d = canvasNodes d"

definition getNodeById :: "nat \<Rightarrow> db \<Rightarrow> canvasNode option" where
  "getNodeById i d = db_get_node i d"

definition listEdges :: "db \<Rightarrow> canvasEdge list" where
  "listEdges d = canvasEdges d"

record createNodeArgs =
  cn_type :: node_type
  cn_content :: string
  cn_x :: real
  cn_y :: real
  cn_width :: "real option"
  cn_height :: "real option"
  cn_messageId :: "nat option"
  cn_conversationId :: "nat option"
  cn_sourceType :: "source_type option"
  cn_sourceId :: "nat option"
  cn_sourceUrl :: "string option"
  cn_parentNodeId :: "nat option"
  cn_outgoingLinks :: "string list option"

text \<open>\<^verbatim>\<open>a ?? b\<close> on an optional argument.\<close>

definition nullish :: "'a option \<Rightarrow> 'a \<Rightarrow> 'a" where
  "nullish a b = (case a of Some v \<Rightarrow> v | None \<Rightarrow> b)"

definition createNode :: "int \<Rightarrow> createNodeArgs \<Rightarrow> db \<Rightarrow> exn + (nat \<times> db)" where
  "createNode now args d =
     Inr (db_insert_node
       \<lparr>node_id = 0,
        node_type = cn_type args,
        content = cn_content args,
        pos_x = cn_x args,
        pos_y = cn_y args,
        width = nullish (cn_width args) 300,
        height = nullish (cn_height args) 150,
        messageId = cn_messageId args,
        conversationId = cn_conversationId args,
        sourceType = Some (nullish (cn_sourceType args) Manual),
        sourceId = cn_sourceId args,
        sourceUrl = cn_sourceUrl args,
        parentNodeId = cn_parentNodeId args,
        outgoingLinks = cn_outgoingLinks args,
        embedding = None,
        createdAt = now,
        updatedAt = now\<rparr> d)"

record updateNodeArgs =
  un_id :: nat
  un_content :: "string option"
  un_x :: "real option"
  un_y :: "real option"
  un_width :: "real option"
  un_height :: "real option"
  un_outgoingLinks :: "string list option"

text \<open>
  \<^verbatim>\<open>filteredUpdates\<close> holds the arguments that are not \<^verbatim>\<open>undefined\<close>; the patch writes
  those fields and \<^verbatim>\<open>updatedAt\<close>, and leaves every other field as it is.
\<close>

definition updateNode :: "int \<Rightarrow> updateNodeArgs \<Rightarrow> db \<Rightarrow> exn + db" where
  "updateNode now args d =
     db_patch_node (un_id args)
       (\<lambda>n. n\<lparr>content := nullish (un_content args) (content n),
              pos_x := nullish (un_x args) (pos_x n),
              pos_y := nullish (un_y args) (pos_y n),
              width := nullish (un_width args) (width n),
              height := nullish (un_height args) (height n),
              outgoingLinks :=
                (case un_outgoingLinks args of Some ls \<Rightarrow> Some ls | None \<Rightarrow> outgoingLinks n),
              updatedAt := now\<rparr>) d"

definition updateNodeEmbedding :: "nat \<Rightarrow> real list \<Rightarrow> db \<Rightarrow> exn + db" where
  "updateNodeEmbedding i v d = db_patch_node i (\<lambda>n. n\<lparr>embedding := Some v\<rparr>) d"

text \<open>The loop \<^verbatim>\<open>for (const edge of [...]) await ctx.db.delete(edge._id)\<close>.\<close>

fun delete_edges :: "canvasEdge list \<Rightarrow> db \<Rightarrow> exn + db" where
  "delete_edges [] d = Inr d"
| "delete_edges (e # es) d =
     (case db_delete_edge (edge_id e) d of
        Inl x \<Rightarrow> Inl x
      | Inr d' \<Rightarrow> delete_edges es d')"

definition sourceEdges :: "nat \<Rightarrow> db \<Rightarrow> canvasEdge list" where
  "sourceEdges i d = filter (\<lambda>e. source e = i) (canvasEdges d)"

definition targetEdges :: "nat \<Rightarrow> db \<Rightarrow> canvasEdge list" where
  "targetEdges i d = filter (\<lambda>e. target e = i) (canvasEdges d)"

definition deleteNode :: "nat \<Rightarrow> db \<Rightarrow> exn + db" where
  "deleteNode i d =
     (case delete_edges (sourceEdges i d @ targetEdges i d) d of
        Inl x \<Rightarrow> Inl x
      | Inr d' \<Rightarrow> db_delete_node i d')"

definition createEdge :: "int \<Rightarrow> nat \<Rightarrow> nat \<Rightarrow> string option \<Rightarrow> db \<Rightarrow> exn + (nat \<times> db)" where
  "createEdge now src tgt lbl d =
     Inr (db_insert_edge
       \<lparr>edge_id = 0, source = src, target = tgt, label = lbl, edge_createdAt = now\<rparr> d)"

definition deleteEdge :: "nat \<Rightarrow> db \<Rightarrow> exn + db" where
  "deleteEdge i d = db_delete_edge i d"

text \<open>
  Editor side (components/notes/NoteEditor.tsx): \<^verbatim>\<open>handleUpdate\<close> extracts the links of
  the new content and sends both to \<^verbatim>\<open>updateNode\<close>.
\<close>

definition handleUpdate :: "int \<Rightarrow> nat \<Rightarrow> string \<Rightarrow> db \<Rightarrow> exn + db" where
  "handleUpdate now noteId c d =
     updateNode now
       \<lparr>un_id = noteId, un_content = Some c, un_x = None, un_y = None, un_width = None,
        un_height = None, un_outgoingLinks = Some (extractWikiLinks c)\<rparr> d"

section \<open>Link resolver (convex/canvas.ts)\<close>

text \<open>\<^verbatim>\<open>xs.map(f)\<close> where \<^verbatim>\<open>f\<close> can throw: the first throw ends the map.\<close>

fun map_exn :: "('a \<Rightarrow> exn + 'b) \<Rightarrow> 'a list \<Rightarrow> exn + 'b list" where
  "map_exn f [] = Inr []"
| "map_exn f (x # xs) =
     (case f x of
        Inl e \<Rightarrow> Inl e
      | Inr y \<Rightarrow> (case map_exn f xs of Inl e \<Rightarrow> Inl e | Inr ys \<Rightarrow> Inr (y # ys)))"

text \<open>The filter predicate of \<^verbatim>\<open>getWikiLinkBacklinks\<close>, on the lower-cased title.\<close>

definition links_to :: "string \<Rightarrow> canvasNode \<Rightarrow> bool" where
  "links_to targetTitle note =
     (if (case outgoingLinks note of
            Some ls \<Rightarrow> list_ex (\<lambda>link. toLowerCase link = targetTitle) ls
          | None \<Rightarrow> False)
      then True
      else targetTitle \<in> set (extractWikiLinksFromContent (content note)))"

text \<open>A result \<^verbatim>\<open>{...note, title}\<close> is the note paired with its title.\<close>

definition getWikiLinkBacklinks :: "string \<Rightarrow> db \<Rightarrow> exn + (canvasNode \<times> string) list" where
  "getWikiLinkBacklinks noteTitle d =
     (if noteTitle = [] then Inr []
      else
        (let nodes = canvasNodes d;
             notes = filter (\<lambda>n. node_type n = Note) nodes;
             targetTitle = toLowerCase noteTitle;
             backlinks = filter (links_to targetTitle) notes
         in map_exn (\<lambda>note.
              (case extractNoteTitle (content note) of
                 Inl e \<Rightarrow> Inl e
               | Inr t \<Rightarrow> Inr (note, t))) backlinks))"

section \<open>Example documents\<close>

definition note_doc :: "nat \<Rightarrow> string \<Rightarrow> string list option \<Rightarrow> canvasNode" where
  "note_doc i c ls =
     \<lparr>node_id = i, node_type = Note, content = c, pos_x = 0, pos_y = 0, width = 300,
      height = 150, messageId = None, conversationId = None, sourceType = Some Manual,
      sourceId = None, sourceUrl = None, parentNodeId = None, outgoingLinks = ls,
      embedding = None, createdAt = 0, updatedAt = 0\<rparr>"

definition edge_doc :: "nat \<Rightarrow> nat \<Rightarrow> nat \<Rightarrow> canvasEdge" where
  "edge_doc i s t = \<lparr>edge_id = i, source = s, target = t, label = None, edge_createdAt = 0\<rparr>"

text \<open>Two notes with an edge in each direction between them.\<close>

definition db_two_notes :: db where
  "db_two_notes =
     \<lparr>canvasNodes = [note_doc 0 ''# Apple'' None, note_doc 1 ''I like [[Apple]] pie'' None],
      canvasEdges = [edge_doc 2 0 1, edge_doc 3 1 0],
      voiceNotes = [],
      nextId = 4\<rparr>"

text \<open>The same notes, where the second edge is a self-loop on note 0.\<close>

definition db_self_loop :: db where
  "db_self_loop = db_two_notes\<lparr>canvasEdges := [edge_doc 2 0 1, edge_doc 3 0 0]\<rparr>"

text \<open>A note whose stored links hold the empty title.\<close>

definition db_blank_link :: db where
  "db_blank_link =
     \<lparr>canvasNodes = [note_doc 0 ''# Apple'' (Some [''''])],
      canvasEdges = [], voiceNotes = [], nextId = 1\<rparr>"

section \<open>Textual backlinks as the specification words them\<close>

text \<open>
  Specification, section 4.3: a note qualifies if the title, compared without regard to
  case, appears in its \<^verbatim>\<open>outgoingLinks\<close> or among the references that a scan of its
  content finds (in either of the two forms).
\<close>

definition spec_qualifies :: "string \<Rightarrow> canvasNode \<Rightarrow> bool" where
  "spec_qualifies title n =
     ((\<exists>l \<in> set (case outgoingLinks n of Some ls \<Rightarrow> ls | None \<Rightarrow> []).
          toLowerCase l = toLowerCase title)
      \<or> (\<exists>x \<in> set (raw_exec_all (content n)) \<union> set (html_exec_all (content n)).
          toLowerCase x = toLowerCase title))"

section \<open>Voice notes and the ingestion pipeline (convex/voiceNotes.ts)\<close>

subsection \<open>The collaborators\<close>

text \<open>
  An HTTP response as the pipeline reads it: \<^verbatim>\<open>ok\<close> with the parsed body, or not
  \<^verbatim>\<open>ok\<close> with the text of the body.
\<close>

datatype 'a response = Ok 'a | NotOk string

record concept =
  c_title :: string
  c_content :: string
  suggestedLinks :: "string list option"

record relatedNode =
  rel_id :: nat
  score :: real

text \<open>
  What a run takes from outside: the caller's identity, the clock, the file storage, the
  transcription and concept-extraction services, the embedding service, the
  nearest-neighbour index (a ranking computed on the store as it is when asked), the
  rendering of \<^verbatim>\<open>`${Math.round(score * 100)}%`\<close> (floating-point arithmetic, not
  modelled), and the two draws of \<^verbatim>\<open>Math.random()\<close>. A run is modelled at one clock
  reading, and a request is modelled by the response it gets.
\<close>

record env =
  identity :: "string option"
  dateNow :: int
  storageUrl :: "nat \<Rightarrow> string option"
  transcribe :: "string \<Rightarrow> string response"
  extractConcepts :: "string \<Rightarrow> string list \<Rightarrow> concept list response"
  embed :: "string \<Rightarrow> exn + real list"
  nearest :: "db \<Rightarrow> string \<Rightarrow> exn + relatedNode option list"
  percent :: "real \<Rightarrow> string"
  random1 :: real
  random2 :: real

text \<open>
  Modelled from the spec: \<^verbatim>\<open>api.embeddings.embedCanvasNode\<close> (convex/embeddings.ts is not
  among the sources). Specification, section 4.4, step 1: request an embedding vector for
  the text from the embedding collaborator and persist it on the node.
\<close>

definition embedCanvasNode :: "env \<Rightarrow> nat \<Rightarrow> string \<Rightarrow> db \<Rightarrow> exn + db" where
  "embedCanvasNode env nodeId txt d =
     (case embed env txt of
        Inl e \<Rightarrow> Inl e
      | Inr v \<Rightarrow> updateNodeEmbedding nodeId v d)"

text \<open>
  Modelled from the spec: \<^verbatim>\<open>api.embeddings.findRelated\<close> (convex/embeddings.ts is not
  among the sources). Specification, section 4.4, step 2, and section 6: query the
  nearest-neighbour collaborator for the top \<open>k\<close> nodes by similarity score; the answer
  is the ranked list, cut at \<open>k\<close>.
\<close>

definition findRelated :: "env \<Rightarrow> string \<Rightarrow> nat \<Rightarrow> db \<Rightarrow> exn + relatedNode option list" where
  "findRelated env query limit d =
     (case nearest env d query of
        Inl e \<Rightarrow> Inl e
      | Inr ranked \<Rightarrow> Inr (take limit ranked))"

subsection \<open>Queries and mutations\<close>

definition getAuthenticatedUser :: "env \<Rightarrow> exn + string" where
  "getAuthenticatedUser env =
     (case identity env of
        None \<Rightarrow> Inl (Error ''Unauthorized'')
      | Some subject \<Rightarrow> Inr subject)"

definition updateStatus ::
  "env \<Rightarrow> nat \<Rightarrow> voice_status \<Rightarrow> string option \<Rightarrow> string option \<Rightarrow> db \<Rightarrow> exn + db" where
  "updateStatus env i st tr em d =
     (case getAuthenticatedUser env of
        Inl e \<Rightarrow> Inl e
      | Inr subject \<Rightarrow>
          (case db_get_voiceNote i d of
             None \<Rightarrow> Inl (Error ''Not found'')
           | Some voiceNote \<Rightarrow>
               if userId voiceNote \<noteq> subject then Inl (Error ''Not found'')
               else db_patch_voiceNote i
                 (\<lambda>v. v\<lparr>status := st,
                        transcription := (case tr of Some t \<Rightarrow> Some t | None \<Rightarrow> transcription v),
                        errorMessage := (case em of Some m \<Rightarrow> Some m | None \<Rightarrow> errorMessage v),
                        vn_updatedAt := dateNow env\<rparr>) d))"

text \<open>\<^verbatim>\<open>api.voiceNotes.get\<close>: \<^verbatim>\<open>null\<close> for a voice note of another user.\<close>

definition voiceNotes_get :: "env \<Rightarrow> nat \<Rightarrow> db \<Rightarrow> exn + voiceNote option" where
  "voiceNotes_get env i d =
     (case getAuthenticatedUser env of
        Inl e \<Rightarrow> Inl e
      | Inr subject \<Rightarrow>
          (case db_get_voiceNote i d of
             None \<Rightarrow> Inr None
           | Some voiceNote \<Rightarrow>
               if userId voiceNote \<noteq> subject then Inr None else Inr (Some voiceNote)))"

definition getAudioUrl :: "env \<Rightarrow> nat \<Rightarrow> exn + string option" where
  "getAudioUrl env f =
     (case getAuthenticatedUser env of
        Inl e \<Rightarrow> Inl e
      | Inr subject \<Rightarrow> Inr (storageUrl env f))"

subsection \<open>The action \<^verbatim>\<open>process\<close>\<close>

text \<open>
  An action is not a transaction: each mutation it runs commits on its own. So an action
  returns the store as its last mutation left it, with either what it threw or its result.
\<close>

definition concept_content :: "concept \<Rightarrow> string" where
  "concept_content c =
     (let wikiLinks =
            (case suggestedLinks c of
               None \<Rightarrow> None
             | Some ls \<Rightarrow> Some (join_space (map (\<lambda>l. ''[['' @ l @ '']]'') ls)))
      in ''# '' @ c_title c @ [LF, LF] @ c_content c @
           (case wikiLinks of
              Some w \<Rightarrow> if w \<noteq> [] then [LF, LF] @ w else []
            | None \<Rightarrow> []))"

text \<open>The loop \<^verbatim>\<open>for (const relatedNode of related.nodes)\<close>.\<close>

fun link_related ::
  "env \<Rightarrow> nat \<Rightarrow> nat list \<Rightarrow> relatedNode option list \<Rightarrow> db \<Rightarrow> db \<times> (exn + unit)" where
  "link_related env nodeId createdNodeIds [] d = (d, Inr ())"
| "link_related env nodeId createdNodeIds (r # rs) d =
     (case r of
        None \<Rightarrow> link_related env nodeId createdNodeIds rs d
      | Some relatedNode \<Rightarrow>
          if rel_id relatedNode \<noteq> nodeId \<and> rel_id relatedNode \<notin> set createdNodeIds
          then (case createEdge (dateNow env) nodeId (rel_id relatedNode)
                       (Some (percent env (score relatedNode))) d of
                  Inl e \<Rightarrow> (d, Inl e)
                | Inr (edgeId, d') \<Rightarrow> link_related env nodeId createdNodeIds rs d')
          else link_related env nodeId createdNodeIds rs d)"

text \<open>
  One invocation of similarity linking (the lines from \<^verbatim>\<open>findRelated\<close> to the end of the
  inner loop), for the neighbour limit \<open>limit\<close>; the pipeline calls it with 3.
\<close>

definition link_by_similarity ::
  "env \<Rightarrow> nat \<Rightarrow> nat \<Rightarrow> nat list \<Rightarrow> string \<Rightarrow> db \<Rightarrow> db \<times> (exn + unit)" where
  "link_by_similarity env limit nodeId createdNodeIds query d =
     (case findRelated env query limit d of
        Inl e \<Rightarrow> (d, Inl e)
      | Inr related \<Rightarrow> link_related env nodeId createdNodeIds related d)"

text \<open>
  The loop \<^verbatim>\<open>for (const concept of concepts)\<close>, with its variables \<^verbatim>\<open>createdNodeIds\<close> and
  \<^verbatim>\<open>xOffset\<close>; it returns the store and \<^verbatim>\<open>createdNodeIds\<close> as they are when it ends.
\<close>

fun process_concepts ::
  "env \<Rightarrow> nat \<Rightarrow> real \<Rightarrow> real \<Rightarrow> concept list \<Rightarrow> nat list \<Rightarrow> real \<Rightarrow> db
     \<Rightarrow> db \<times> nat list \<times> (exn + unit)" where
  "process_concepts env voiceNoteId baseX baseY [] createdNodeIds xOffset d =
     (d, createdNodeIds, Inr ())"
| "process_concepts env voiceNoteId baseX baseY (c # cs) createdNodeIds xOffset d =
     (case createNode (dateNow env)
             \<lparr>cn_type = Note, cn_content = concept_content c, cn_x = baseX + xOffset,
              cn_y = baseY, cn_width = None, cn_height = None, cn_messageId = None,
              cn_conversationId = None, cn_sourceType = Some Voice,
              cn_sourceId = Some voiceNoteId, cn_sourceUrl = None, cn_parentNodeId = None,
              cn_outgoingLinks = None\<rparr> d of
        Inl e \<Rightarrow> (d, createdNodeIds, Inl e)
      | Inr (nodeId, d1) \<Rightarrow>
          (case embedCanvasNode env nodeId (c_content c) d1 of
             Inl e \<Rightarrow> (d1, createdNodeIds @ [nodeId], Inl e)
           | Inr d2 \<Rightarrow>
               (case link_by_similarity env 3 nodeId (createdNodeIds @ [nodeId]) (c_content c) d2 of
                  (d3, Inl e) \<Rightarrow> (d3, createdNodeIds @ [nodeId], Inl e)
                | (d3, Inr u) \<Rightarrow>
                    process_concepts env voiceNoteId baseX baseY cs
                      (createdNodeIds @ [nodeId]) (xOffset + 350) d3)))"

text \<open>
  The body of \<^verbatim>\<open>try\<close>; its result is \<^verbatim>\<open>conceptCount\<close>. The test
  \<^verbatim>\<open>!audioUrl\<close> holds for \<^verbatim>\<open>null\<close> and for the empty string.
\<close>

definition process_try :: "env \<Rightarrow> nat \<Rightarrow> voiceNote \<Rightarrow> db \<Rightarrow> db \<times> (exn + nat)" where
  "process_try env voiceNoteId voiceNote d =
     (case getAudioUrl env (fileId voiceNote) of
        Inl e \<Rightarrow> (d, Inl e)
      | Inr None \<Rightarrow> (d, Inl (Error ''Audio file not found''))
      | Inr (Some audioUrl) \<Rightarrow>
          if audioUrl = [] then (d, Inl (Error ''Audio file not found''))
          else
            (case transcribe env audioUrl of
               NotOk errorText \<Rightarrow> (d, Inl (Error (''Transcription failed: '' @ errorText)))
             | Ok transcript \<Rightarrow>
                 (case updateStatus env voiceNoteId Processing (Some transcript) None d of
                    Inl e \<Rightarrow> (d, Inl e)
                  | Inr d1 \<Rightarrow>
                      (case extractConcepts env transcript (map content (listNodes d1)) of
                         NotOk error \<Rightarrow>
                           (d1, Inl (Error (''Concept extraction failed: '' @ error)))
                       | Ok concepts \<Rightarrow>
                           (case process_concepts env voiceNoteId (100 + random1 env * 200)
                                   (100 + random2 env * 200) concepts [] 0 d1 of
                              (d2, createdNodeIds, Inl e) \<Rightarrow> (d2, Inl e)
                            | (d2, createdNodeIds, Inr u) \<Rightarrow>
                                (case updateStatus env voiceNoteId Completed None None d2 of
                                   Inl e \<Rightarrow> (d2, Inl e)
                                 | Inr d3 \<Rightarrow> (d3, Inr (length concepts))))))))"

text \<open>\<^verbatim>\<open>error instanceof Error ? error.message : "Unknown error"\<close>.\<close>

definition message_of :: "exn \<Rightarrow> string" where
  "message_of e = (case e of Error m \<Rightarrow> m | NonError \<Rightarrow> ''Unknown error'')"

definition process :: "env \<Rightarrow> nat \<Rightarrow> db \<Rightarrow> db \<times> (exn + nat)" where
  "process env voiceNoteId d =
     (case voiceNotes_get env voiceNoteId d of
        Inl e \<Rightarrow> (d, Inl e)
      | Inr None \<Rightarrow> (d, Inl (Error ''Voice note not found''))
      | Inr (Some voiceNote) \<Rightarrow>
          (case updateStatus env voiceNoteId Transcribing None None d of
             Inl e \<Rightarrow> (d, Inl e)
           | Inr d1 \<Rightarrow>
               (case process_try env voiceNoteId voiceNote d1 of
                  (d2, Inr r) \<Rightarrow> (d2, Inr r)
                | (d2, Inl error) \<Rightarrow>
                    (case updateStatus env voiceNoteId Failed None (Some (message_of error)) d2 of
                       Inl e \<Rightarrow> (d2, Inl e)
                     | Inr d3 \<Rightarrow> (d3, Inl error)))))"

subsection \<open>An example run\<close>

text \<open>
  One uploaded voice note of user \<^verbatim>\<open>u\<close> and one older note that has an embedding; the
  services answer with two concepts, and the index ranks every embedded note of the store.
\<close>

definition db_voice :: db where
  "db_voice =
     \<lparr>canvasNodes = [(note_doc 1 ''# Fruit'' None)\<lparr>embedding := Some [1, 0]\<rparr>],
      canvasEdges = [],
      voiceNotes =
        [\<lparr>vn_id = 0, userId = ''u'', fileId = 7, duration = 12, transcription = None,
          status = Uploaded, errorMessage = None, vn_createdAt = 0, vn_updatedAt = 0\<rparr>],
      nextId = 2\<rparr>"

definition env_ok :: env where
  "env_ok =
     \<lparr>identity = Some ''u'',
      dateNow = 50,
      storageUrl = (\<lambda>f. Some ''audio''),
      transcribe = (\<lambda>url. Ok ''apples and pears''),
      extractConcepts = (\<lambda>t notes. Ok
        [\<lparr>c_title = ''Apples'', c_content = ''Apples are fruit'', suggestedLinks = Some [''Fruit'']\<rparr>,
         \<lparr>c_title = ''Pears'', c_content = ''Pears are fruit'', suggestedLinks = None\<rparr>]),
      embed = (\<lambda>t. Inr [1, 0]),
      nearest = (\<lambda>d q. Inr (map (\<lambda>n. Some \<lparr>rel_id = node_id n, score = 1\<rparr>)
                              (filter (\<lambda>n. embedding n \<noteq> None) (canvasNodes d)))),
      percent = (\<lambda>s. ''100%''),
      random1 = 0,
      random2 = 0\<rparr>"

text \<open>The same run with a transcription service that answers with an error.\<close>

definition env_no_transcript :: env where
  "env_no_transcript = env_ok\<lparr>transcribe := (\<lambda>url. NotOk ''quota exceeded'')\<rparr>"

text \<open>Three notes that all have an embedding, and no edge yet.\<close>

definition db_three_embedded :: db where
  "db_three_embedded =
     \<lparr>canvasNodes = map (\<lambda>n. n\<lparr>embedding := Some [1, 0]\<rparr>)
        [note_doc 1 ''# Fruit'' None, note_doc 2 ''# Apples'' None, note_doc 3 ''# Pears'' None],
      canvasEdges = [], voiceNotes = [], nextId = 4\<rparr>"

subsection \<open>Edges of one batch\<close>


section \<open>Properties of the content parser\<close>

lemma index_opt_split_lf_acc:
  "index_opt (split_lf_acc cur s) 0 = Some (rev cur @ takeWhile (\<lambda>c. c \<noteq> LF) s)"
  by (induction s arbitrary: cur) simp_all

lemma index_opt_split_lf:
  "index_opt (split_lf s) 0 = Some (takeWhile (\<lambda>c. c \<noteq> LF) s)"
  by (simp add: split_lf_def index_opt_split_lf_acc)

lemma stripTags_no_open: "CHR ''<'' \<notin> set s \<Longrightarrow> stripTags s = s"
  by (induction s) auto

lemma trim_all_space:
  assumes "\<forall>c\<in>set s. isSpace c"
  shows "trim s = []"
  using assms by (auto simp: trim_def dest: set_dropWhileD)

lemma isSpace_not_open: "isSpace c \<Longrightarrow> c \<noteq> CHR ''<''"
  by (auto simp: isSpace_def)

lemma isSpace_not_hash: "isSpace c \<Longrightarrow> c \<noteq> CHR ''#''"
  by (auto simp: isSpace_def)

lemma stripHeading_all_space:
  "\<forall>c\<in>set s. isSpace c \<Longrightarrow> stripHeading s = s"
  by (cases s) (auto dest: isSpace_not_hash)

lemma first_line_title_nonempty: "first_line_title txt \<noteq> []"
  by (simp add: first_line_title_def Let_def)

lemma first_line_title_blank:
  assumes "\<forall>c\<in>set txt. isSpace c"
  shows "first_line_title txt = ''Untitled''"
proof -
  let ?l = "takeWhile (\<lambda>c. c \<noteq> LF) txt"
  have sp: "\<forall>c\<in>set ?l. isSpace c"
    using assms by (auto dest: set_takeWhileD)
  then have "CHR ''<'' \<notin> set ?l"
    by (auto dest: isSpace_not_open)
  then have "stripTags ?l = ?l"
    by (rule stripTags_no_open)
  moreover have "stripHeading ?l = ?l"
    using sp by (rule stripHeading_all_space)
  moreover have "trim ?l = []"
    using sp by (rule trim_all_space)
  ultimately show ?thesis
    by (simp add: first_line_title_def)
qed

lemma extractNoteTitle_first_line: "extractNoteTitle txt = Inr (first_line_title txt)"
  by (simp add: extractNoteTitle_def index_opt_split_lf first_line_title_def Let_def)

text \<open>
  C9, as the code has it. \<open>extractNoteTitle\<close> never throws and never returns the empty
  string: it takes the first line of the content, strips the markup tags of that line,
  strips a leading heading marker, trims, and returns \<^verbatim>\<open>"Untitled"\<close> when nothing is
  left; so content that is empty or white space only has the title \<^verbatim>\<open>"Untitled"\<close>.
\<close>

theorem extractNoteTitle_total_nonempty:
  "extractNoteTitle txt = Inr (first_line_title txt)
   \<and> first_line_title txt \<noteq> []
   \<and> ((\<forall>c\<in>set txt. isSpace c) \<longrightarrow> extractNoteTitle txt = Inr ''Untitled'')"
  using extractNoteTitle_first_line first_line_title_nonempty first_line_title_blank
  by simp

text \<open>C9, witness: a line of one space, a line feed and another space.\<close>

theorem extractNoteTitle_total_nonempty_witness:
  "extractNoteTitle ('' '' @ [LF] @ '' '') = Inr ''Untitled''"
  using extractNoteTitle_total_nonempty
    [of "'' '' @ [LF] @ '' ''", THEN conjunct2, THEN conjunct2]
  by (simp add: isSpace_def LF_def)

text \<open>
  C9 as stated (tags stripped first, then the first remaining line) fails on content
  whose first line has a \<^verbatim>\<open><\<close> and a later line a \<^verbatim>\<open>>\<close>: stripping first removes
  everything between them, line feeds included, while the code only ever looks at the
  first line.
\<close>

theorem extractNoteTitle_order_counterexample:
  "extractNoteTitle (''# a <b'' @ [LF, LF] @ ''c > d'') = Inr ''a <b''
   \<and> spec_extractTitle (''# a <b'' @ [LF, LF] @ ''c > d'') = ''a  d''"
  by (simp add: extractNoteTitle_def spec_extractTitle_def split_lf_def LF_def trim_def
      isSpace_def)

text \<open>Scenario C of the specification.\<close>

lemma extractNoteTitle_scenario_C:
  "extractNoteTitle (''<h1>Hello World</h1>'' @ [LF] @ ''Body'') = Inr ''Hello World''"
  by (simp add: extractNoteTitle_def split_lf_def LF_def trim_def isSpace_def)

text \<open>
  C3 at a failing input: a title written twice in the delimited form is returned twice by
  both extractors (the first loop pushes without the \<^verbatim>\<open>includes\<close> test of the second),
  and the editor's extractor does not lower-case.
\<close>

theorem extractWikiLinksFromContent_duplicate:
  "extractWikiLinksFromContent ''[[Apple]] pie, [[apple]] tart'' = [''apple'', ''apple'']
   \<and> extractWikiLinks ''[[Apple]] pie, [[apple]] tart'' = [''Apple'', ''apple'']"
  by (simp add: extractWikiLinksFromContent_def extractWikiLinks_def toLowerCase_def
      toLowerCase_char_def match_html_at_def DQUOTE_def)

lemma set_push_new: "set (push_new links ts) = set links \<union> set ts"
  by (induction ts arbitrary: links) auto

lemma push_new_distinct: "distinct links \<Longrightarrow> distinct (push_new links ts)"
  by (induction ts arbitrary: links) auto

text \<open>
  What both extractors do return: exactly the titles that the two patterns capture
  (lower-cased on the server side).
\<close>

theorem extractWikiLinksFromContent_union:
  "set (extractWikiLinksFromContent txt)
     = toLowerCase ` (set (raw_exec_all txt) \<union> set (html_exec_all txt))
   \<and> set (extractWikiLinks txt) = set (raw_exec_all txt) \<union> set (html_exec_all txt)"
  by (simp add: extractWikiLinksFromContent_def extractWikiLinks_def set_push_new image_Un)

text \<open>
  The titles of the attribute form never add a duplicate: when no title occurs twice in
  the delimited form, the result has no duplicates.
\<close>

theorem extractWikiLinksFromContent_distinct:
  assumes "distinct (map toLowerCase (raw_exec_all txt))"
  shows "distinct (extractWikiLinksFromContent txt)"
  using assms by (simp add: extractWikiLinksFromContent_def push_new_distinct)

text \<open>Witness: a reference as the editor saves it, in both forms, and a second one.\<close>

theorem extractWikiLinksFromContent_distinct_witness:
  "extractWikiLinksFromContent
     (''<span data-title='' @ [DQUOTE] @ ''Apple'' @ [DQUOTE] @ ''>[[Apple]]</span> and [[Pear]]'')
     = [''apple'', ''pear'']"
proof -
  let ?c = "''<span data-title='' @ [DQUOTE] @ ''Apple'' @ [DQUOTE] @ ''>[[Apple]]</span> and [[Pear]]''"
  have d: "distinct (map toLowerCase (raw_exec_all ?c))"
    by (simp add: DQUOTE_def toLowerCase_def toLowerCase_char_def)
  have r: "extractWikiLinksFromContent ?c = [''apple'', ''pear'']"
    by (simp add: extractWikiLinksFromContent_def match_html_at_def DQUOTE_def toLowerCase_def
        toLowerCase_char_def)
  from extractWikiLinksFromContent_distinct [OF d] r show ?thesis
    by simp
qed

section \<open>Properties of the repository\<close>

lemma db_delete_edge_Inr:
  "db_delete_edge i d = Inr d' \<Longrightarrow>
     canvasEdges d' = filter (\<lambda>e. edge_id e \<noteq> i) (canvasEdges d)
     \<and> canvasNodes d' = canvasNodes d"
  by (auto simp: db_delete_edge_def split: if_splits)

lemma delete_edges_Inr:
  "delete_edges es d = Inr d' \<Longrightarrow>
     canvasEdges d' = filter (\<lambda>e. edge_id e \<notin> edge_id ` set es) (canvasEdges d)
     \<and> canvasNodes d' = canvasNodes d"
proof (induction es arbitrary: d)
  case Nil
  then show ?case by simp
next
  case (Cons e es)
  from Cons.prems obtain d1 where d1: "db_delete_edge (edge_id e) d = Inr d1"
    and rest: "delete_edges es d1 = Inr d'"
    by (auto split: sum.splits)
  from Cons.IH [OF rest] db_delete_edge_Inr [OF d1] show ?case
    by (auto intro: filter_cong)
qed

lemma delete_edges_Inl:
  "delete_edges es d = Inl x \<Longrightarrow> x = Error ''Delete on nonexistent document ID''"
  by (induction es arbitrary: d) (auto simp: db_delete_edge_def split: sum.splits if_splits)

lemma delete_edges_append:
  "delete_edges (as @ bs) d =
     (case delete_edges as d of Inl x \<Rightarrow> Inl x | Inr d1 \<Rightarrow> delete_edges bs d1)"
  by (induction as arbitrary: d) (auto split: sum.splits)

lemma delete_edges_absent:
  "e \<in> set es \<Longrightarrow> edge_id e \<notin> edge_id ` set (canvasEdges d) \<Longrightarrow>
     delete_edges es d = Inl (Error ''Delete on nonexistent document ID'')"
proof (induction es arbitrary: d)
  case Nil
  then show ?case by simp
next
  case (Cons a es)
  show ?case
  proof (cases "db_delete_edge (edge_id a) d")
    case (Inl x)
    then show ?thesis by (auto simp: db_delete_edge_def split: if_splits)
  next
    case (Inr d1)
    then have a: "e \<noteq> a"
      using Cons.prems by (auto simp: db_delete_edge_def split: if_splits)
    have "edge_id e \<notin> edge_id ` set (canvasEdges d1)"
      using db_delete_edge_Inr [OF Inr] Cons.prems(2) by auto
    with Cons.IH [of d1] a Cons.prems(1) Inr show ?thesis by simp
  qed
qed

lemma delete_edges_removes:
  assumes "delete_edges es d = Inr d1" and "e \<in> set es"
  shows "edge_id e \<notin> edge_id ` set (canvasEdges d1)"
proof
  assume "edge_id e \<in> edge_id ` set (canvasEdges d1)"
  then obtain x where x: "x \<in> set (canvasEdges d1)" and eq: "edge_id x = edge_id e"
    by auto
  from x delete_edges_Inr [OF assms(1)] have "edge_id x \<notin> edge_id ` set es"
    by simp
  with assms(2) eq show False
    by (metis imageI)
qed

text \<open>
  C1. After \<open>deleteNode\<close> has completed successfully on a node, no edge of the store has
  that node as its source or as its target, and the node itself is gone.
\<close>

theorem deleteNode_no_incident_edges:
  assumes "deleteNode i d = Inr d'"
  shows "(\<forall>e\<in>set (canvasEdges d'). source e \<noteq> i \<and> target e \<noteq> i)
         \<and> i \<notin> node_id ` set (canvasNodes d')"
proof -
  from assms obtain d1 where
    d1: "delete_edges (sourceEdges i d @ targetEdges i d) d = Inr d1"
    and dn: "db_delete_node i d1 = Inr d'"
    by (auto simp: deleteNode_def split: sum.splits)
  have edges': "canvasEdges d' = canvasEdges d1"
    and nodes': "canvasNodes d' = filter (\<lambda>n. node_id n \<noteq> i) (canvasNodes d1)"
    using dn by (auto simp: db_delete_node_def split: if_splits)
  have edges1: "canvasEdges d1 =
      filter (\<lambda>e. edge_id e \<notin> edge_id ` set (sourceEdges i d @ targetEdges i d)) (canvasEdges d)"
    using delete_edges_Inr [OF d1] by simp
  have "source e \<noteq> i \<and> target e \<noteq> i" if "e \<in> set (canvasEdges d')" for e
  proof -
    from that edges' edges1 have mem: "e \<in> set (canvasEdges d)"
      and out: "edge_id e \<notin> edge_id ` set (sourceEdges i d @ targetEdges i d)"
      by auto
    from out have "e \<notin> set (sourceEdges i d)" and "e \<notin> set (targetEdges i d)"
      by auto
    with mem show ?thesis
      by (auto simp: sourceEdges_def targetEdges_def)
  qed
  moreover have "i \<notin> node_id ` set (canvasNodes d')"
    using nodes' by auto
  ultimately show ?thesis by blast
qed

text \<open>C1, witness (scenario B): note 0 has two incident edges; both go with it.\<close>

theorem deleteNode_no_incident_edges_witness:
  "deleteNode 0 db_two_notes =
     Inr (db_two_notes\<lparr>canvasNodes := [note_doc 1 ''I like [[Apple]] pie'' None],
                        canvasEdges := []\<rparr>)"
proof -
  have h: "deleteNode 0 db_two_notes =
     Inr (db_two_notes\<lparr>canvasNodes := [note_doc 1 ''I like [[Apple]] pie'' None],
                        canvasEdges := []\<rparr>)"
    by (simp add: deleteNode_def sourceEdges_def targetEdges_def db_two_notes_def note_doc_def
        edge_doc_def db_delete_edge_def db_delete_node_def)
  from deleteNode_no_incident_edges [OF h] h show ?thesis
    by simp
qed



text \<open>
  What follows in the store: the second delete throws, so \<open>deleteNode\<close> on a node with a
  self-loop fails and, being one transaction, deletes nothing.
\<close>

theorem deleteNode_self_loop_fails:
  assumes "E \<in> set (canvasEdges d)" and "source E = i" and "target E = i"
  shows "deleteNode i d = Inl (Error ''Delete on nonexistent document ID'')"
proof -
  have s: "E \<in> set (sourceEdges i d)" and t: "E \<in> set (targetEdges i d)"
    using assms by (auto simp: sourceEdges_def targetEdges_def)
  show ?thesis
  proof (cases "delete_edges (sourceEdges i d) d")
    case (Inl x)
    then show ?thesis
      using delete_edges_Inl [OF Inl] by (simp add: deleteNode_def delete_edges_append)
  next
    case (Inr d1)
    have "edge_id E \<notin> edge_id ` set (canvasEdges d1)"
      using delete_edges_removes [OF Inr s] .
    from delete_edges_absent [OF t this] Inr show ?thesis
      by (simp add: deleteNode_def delete_edges_append)
  qed
qed

text \<open>Witness: deleting note 0 of the store with the self-loop fails.\<close>

theorem deleteNode_self_loop_fails_witness:
  "deleteNode 0 db_self_loop = Inl (Error ''Delete on nonexistent document ID'')"
proof -
  have m: "edge_doc 3 0 0 \<in> set (canvasEdges db_self_loop)"
    by (simp add: db_self_loop_def)
  have s: "source (edge_doc 3 0 0) = 0" and t: "target (edge_doc 3 0 0) = 0"
    by (simp_all add: edge_doc_def)
  from deleteNode_self_loop_fails [OF m s t] show ?thesis .
qed

text \<open>
  C2, as the code has it. \<open>createEdge\<close> never fails, whatever the source and the target,
  equal or not: it appends an edge with the given source, target and label under a fresh
  id. A second call with the same pair appends a second edge between the same nodes.
\<close>

theorem createEdge_always_inserts:
  "\<exists>i d1 j d2.
     createEdge now src tgt lbl d = Inr (i, d1)
     \<and> i = nextId d
     \<and> canvasEdges d1 = canvasEdges d @
          [\<lparr>edge_id = i, source = src, target = tgt, label = lbl, edge_createdAt = now\<rparr>]
     \<and> canvasNodes d1 = canvasNodes d
     \<and> createEdge now2 src tgt lbl2 d1 = Inr (j, d2)
     \<and> j \<noteq> i
     \<and> canvasEdges d2 = canvasEdges d @
          [\<lparr>edge_id = i, source = src, target = tgt, label = lbl, edge_createdAt = now\<rparr>,
           \<lparr>edge_id = j, source = src, target = tgt, label = lbl2, edge_createdAt = now2\<rparr>]"
  by (simp add: createEdge_def db_insert_edge_def)

text \<open>
  C2 as stated fails: \<open>createEdge\<close> with note 0 as source and as target does not raise a
  validation error; it returns the id of a new self-loop edge.
\<close>

theorem createEdge_self_loop_counterexample:
  "createEdge 7 0 0 None db_two_notes =
     Inr (4, db_two_notes\<lparr>canvasEdges := [edge_doc 2 0 1, edge_doc 3 1 0,
              \<lparr>edge_id = 4, source = 0, target = 0, label = None, edge_createdAt = 7\<rparr>],
            nextId := 5\<rparr>)"
  by (simp add: createEdge_def db_insert_edge_def db_two_notes_def)

section \<open>Properties of updateNode and of the backlinks\<close>

lemma find_patch:
  "find (\<lambda>n. node_id n = i) ns = Some n \<Longrightarrow> node_id (f n) = i \<Longrightarrow>
     find (\<lambda>n. node_id n = i) (map (\<lambda>m. if node_id m = i then f m else m) ns) = Some (f n)"
  by (induction ns) (auto split: if_splits)

lemma find_Some_mem: "find P xs = Some x \<Longrightarrow> x \<in> set xs \<and> P x"
  by (induction xs) (auto split: if_splits)

lemma db_patch_node_get:
  assumes "db_get_node i d = Some n" and "node_id (f n) = i"
  shows "\<exists>d'. db_patch_node i f d = Inr d' \<and> db_get_node i d' = Some (f n)
            \<and> canvasEdges d' = canvasEdges d"
proof -
  from assms(1) have "n \<in> set (canvasNodes d)" and "node_id n = i"
    using find_Some_mem [of "\<lambda>n. node_id n = i" "canvasNodes d" n]
    by (simp_all add: db_get_node_def)
  then have "i \<in> set (map node_id (canvasNodes d))"
    by force
  then show ?thesis
    using find_patch [of i "canvasNodes d" n f] assms
    by (simp add: db_patch_node_def db_get_node_def)
qed

text \<open>
  C4, as the code has it. \<open>updateNode\<close> on an existing node with new content writes the
  content and \<^verbatim>\<open>updatedAt\<close>; \<^verbatim>\<open>outgoingLinks\<close> becomes the list the caller passed, and
  stays as it was when the caller passed none. The links are extracted by the editor:
  after \<open>handleUpdate\<close> the node holds the new content and the links that
  \<open>extractWikiLinks\<close> finds in it.
\<close>

theorem updateNode_writes_given_fields:
  assumes "db_get_node i d = Some n"
  shows "(\<exists>d' n'. updateNode now \<lparr>un_id = i, un_content = Some c, un_x = px, un_y = py,
                      un_width = w, un_height = h, un_outgoingLinks = ls\<rparr> d = Inr d'
            \<and> db_get_node i d' = Some n'
            \<and> content n' = c
            \<and> updatedAt n' = now
            \<and> outgoingLinks n' = (case ls of Some l \<Rightarrow> Some l | None \<Rightarrow> outgoingLinks n))
         \<and> (\<exists>d' n'. handleUpdate now i c d = Inr d'
            \<and> db_get_node i d' = Some n'
            \<and> content n' = c
            \<and> outgoingLinks n' = Some (extractWikiLinks c))"
proof -
  have id: "node_id n = i"
    using assms find_Some_mem [of "\<lambda>n. node_id n = i" "canvasNodes d" n]
    by (simp add: db_get_node_def)
  have *: "\<exists>d' n'. updateNode now a d = Inr d' \<and> db_get_node i d' = Some n'
            \<and> content n' = nullish (un_content a) (content n)
            \<and> updatedAt n' = now
            \<and> outgoingLinks n' = (case un_outgoingLinks a of Some l \<Rightarrow> Some l | None \<Rightarrow> outgoingLinks n)"
    if "un_id a = i" for a
    unfolding updateNode_def
    using db_patch_node_get [OF assms, where f = "\<lambda>n. n\<lparr>content := nullish (un_content a) (content n),
              pos_x := nullish (un_x a) (pos_x n),
              pos_y := nullish (un_y a) (pos_y n),
              width := nullish (un_width a) (width n),
              height := nullish (un_height a) (height n),
              outgoingLinks :=
                (case un_outgoingLinks a of Some ls \<Rightarrow> Some ls | None \<Rightarrow> outgoingLinks n),
              updatedAt := now\<rparr>"] id that
    by auto
  show ?thesis
    using * [of "\<lparr>un_id = i, un_content = Some c, un_x = px, un_y = py,
                      un_width = w, un_height = h, un_outgoingLinks = ls\<rparr>"]
      * [of "\<lparr>un_id = i, un_content = Some c, un_x = None, un_y = None, un_width = None,
        un_height = None, un_outgoingLinks = Some (extractWikiLinks c)\<rparr>"]
    by (simp add: handleUpdate_def nullish_def) blast
qed

text \<open>C4, witness: note 0 of the two-note store gets new content, with and without links.\<close>

theorem updateNode_writes_given_fields_witness:
  "updateNode 9 \<lparr>un_id = 0, un_content = Some ''see [[Pear]]'', un_x = None, un_y = None,
                 un_width = None, un_height = None, un_outgoingLinks = None\<rparr> db_two_notes
     = Inr (db_two_notes\<lparr>canvasNodes :=
         [(note_doc 0 ''see [[Pear]]'' None)\<lparr>updatedAt := 9\<rparr>,
          note_doc 1 ''I like [[Apple]] pie'' None]\<rparr>)
   \<and> handleUpdate 9 0 ''see [[Pear]]'' db_two_notes
     = Inr (db_two_notes\<lparr>canvasNodes :=
         [(note_doc 0 ''see [[Pear]]'' (Some [''Pear'']))\<lparr>updatedAt := 9\<rparr>,
          note_doc 1 ''I like [[Apple]] pie'' None]\<rparr>)"
proof -
  have g: "db_get_node 0 db_two_notes = Some (note_doc 0 ''# Apple'' None)"
    by (simp add: db_get_node_def db_two_notes_def note_doc_def)
  from updateNode_writes_given_fields [OF g] show ?thesis
    by (simp add: updateNode_def handleUpdate_def db_patch_node_def db_two_notes_def
        note_doc_def nullish_def extractWikiLinks_def match_html_at_def DQUOTE_def)
qed

text \<open>
  C4 as stated fails: \<open>updateNode\<close> with new content and no link list leaves
  \<^verbatim>\<open>outgoingLinks\<close> absent, though the new content has a reference.
\<close>

theorem updateNode_no_recompute_counterexample:
  "updateNode 9 \<lparr>un_id = 0, un_content = Some ''see [[Pear]]'', un_x = None, un_y = None,
                 un_width = None, un_height = None, un_outgoingLinks = None\<rparr> db_two_notes
     = Inr (db_two_notes\<lparr>canvasNodes :=
         [(note_doc 0 ''see [[Pear]]'' None)\<lparr>updatedAt := 9\<rparr>,
          note_doc 1 ''I like [[Apple]] pie'' None]\<rparr>)
   \<and> extractWikiLinksFromContent ''see [[Pear]]'' = [''pear'']"
  by (simp add: updateNode_def db_patch_node_def db_two_notes_def
        note_doc_def nullish_def extractWikiLinksFromContent_def match_html_at_def DQUOTE_def
        toLowerCase_def toLowerCase_char_def)

lemma rescan_iff:
  "toLowerCase title \<in> set (extractWikiLinksFromContent txt) \<longleftrightarrow>
     (\<exists>x \<in> set (raw_exec_all txt) \<union> set (html_exec_all txt).
        toLowerCase x = toLowerCase title)"
proof
  assume "toLowerCase title \<in> set (extractWikiLinksFromContent txt)"
  then have "toLowerCase title \<in> toLowerCase ` (set (raw_exec_all txt) \<union> set (html_exec_all txt))"
    by (simp add: extractWikiLinksFromContent_def set_push_new image_Un)
  then obtain x where "x \<in> set (raw_exec_all txt) \<union> set (html_exec_all txt)"
    and "toLowerCase title = toLowerCase x"
    by (rule imageE)
  then show "\<exists>x \<in> set (raw_exec_all txt) \<union> set (html_exec_all txt).
      toLowerCase x = toLowerCase title"
    by (intro bexI [of _ x]) simp_all
next
  assume "\<exists>x \<in> set (raw_exec_all txt) \<union> set (html_exec_all txt).
      toLowerCase x = toLowerCase title"
  then obtain x where x: "x \<in> set (raw_exec_all txt) \<union> set (html_exec_all txt)"
    and eq: "toLowerCase x = toLowerCase title"
    by (rule bexE)
  from x have "toLowerCase x \<in> toLowerCase ` (set (raw_exec_all txt) \<union> set (html_exec_all txt))"
    by (rule imageI)
  with eq show "toLowerCase title \<in> set (extractWikiLinksFromContent txt)"
    by (simp add: extractWikiLinksFromContent_def set_push_new image_Un)
qed

lemma links_to_spec_qualifies: "links_to (toLowerCase title) n = spec_qualifies title n"
  by (cases "outgoingLinks n")
    (simp_all add: links_to_def spec_qualifies_def list_ex_iff rescan_iff)

lemma map_exn_titles:
  "map_exn (\<lambda>note. case extractNoteTitle (content note) of
                      Inl e \<Rightarrow> Inl e
                    | Inr t \<Rightarrow> Inr (note, t)) ns
     = Inr (map (\<lambda>note. (note, first_line_title (content note))) ns)"
  by (induction ns) (simp_all add: extractNoteTitle_first_line)

text \<open>
  C8, as the code has it. For a title that is not empty, \<open>getWikiLinkBacklinks\<close> returns
  exactly the notes that qualify, in store order, each once when the store's ids are
  distinct, and each paired with the title extracted from its own content.
\<close>

theorem getWikiLinkBacklinks_exact:
  assumes "noteTitle \<noteq> []"
  shows "\<exists>rs. getWikiLinkBacklinks noteTitle d = Inr rs
           \<and> map fst rs =
               filter (\<lambda>n. node_type n = Note \<and> spec_qualifies noteTitle n) (canvasNodes d)
           \<and> (\<forall>r\<in>set rs. extractNoteTitle (content (fst r)) = Inr (snd r))
           \<and> (distinct (map node_id (canvasNodes d)) \<longrightarrow> distinct (map (\<lambda>r. node_id (fst r)) rs))"
proof -
  let ?sel = "filter (links_to (toLowerCase noteTitle))
                (filter (\<lambda>n. node_type n = Note) (canvasNodes d))"
  let ?rs = "map (\<lambda>note. (note, first_line_title (content note))) ?sel"
  have res: "getWikiLinkBacklinks noteTitle d = Inr ?rs"
    using assms by (simp add: getWikiLinkBacklinks_def Let_def map_exn_titles)
  have fst: "map fst ?rs = ?sel"
    by (simp add: comp_def)
  have sel: "?sel = filter (\<lambda>n. node_type n = Note \<and> spec_qualifies noteTitle n) (canvasNodes d)"
    by (auto simp: links_to_spec_qualifies intro: filter_cong)
  have titles: "\<forall>r\<in>set ?rs. extractNoteTitle (content (fst r)) = Inr (snd r)"
    by (auto simp: extractNoteTitle_first_line)
  have "distinct (map (\<lambda>r. node_id (fst r)) ?rs)" if "distinct (map node_id (canvasNodes d))"
  proof -
    have eq: "map (\<lambda>r. node_id (fst r)) ?rs = map node_id ?sel"
      by (simp add: comp_def)
    have "distinct (map node_id ?sel)"
      using that by (simp add: distinct_map_filter)
    with eq show ?thesis
      by (simp only:)
  qed
  with res fst sel titles show ?thesis
    by (metis (no_types, lifting))
qed

text \<open>C8, witness (scenario A): the backlinks of \<^verbatim>\<open>Apple\<close> are the one note that cites it.\<close>

theorem getWikiLinkBacklinks_exact_witness:
  "getWikiLinkBacklinks ''Apple'' db_two_notes =
     Inr [(note_doc 1 ''I like [[Apple]] pie'' None, ''I like [[Apple]] pie'')]"
proof -
  have ne: "''Apple'' \<noteq> []" by simp
  have r: "getWikiLinkBacklinks ''Apple'' db_two_notes =
     Inr [(note_doc 1 ''I like [[Apple]] pie'' None, ''I like [[Apple]] pie'')]"
    by (simp add: getWikiLinkBacklinks_def links_to_def db_two_notes_def note_doc_def
        extractWikiLinksFromContent_def match_html_at_def DQUOTE_def toLowerCase_def
        toLowerCase_char_def extractNoteTitle_def split_lf_def LF_def trim_def isSpace_def)
  from getWikiLinkBacklinks_exact [OF ne, of db_two_notes] r show ?thesis
    by simp
qed

text \<open>
  C8 as stated fails for the empty title: the function returns nothing at once, also
  when a note's stored links hold the empty title.
\<close>

theorem getWikiLinkBacklinks_empty_title_counterexample:
  "getWikiLinkBacklinks '''' db_blank_link = Inr []
   \<and> filter (\<lambda>n. node_type n = Note \<and> spec_qualifies '''' n) (canvasNodes db_blank_link)
       = [note_doc 0 ''# Apple'' (Some [''''])]"
  by (simp add: getWikiLinkBacklinks_def db_blank_link_def note_doc_def spec_qualifies_def
      toLowerCase_def)

section \<open>Properties of the pipeline\<close>

lemma find_patch_voiceNote:
  "find (\<lambda>v. vn_id v = i) vs = Some vn \<Longrightarrow> vn_id (f vn) = i \<Longrightarrow>
     find (\<lambda>v. vn_id v = i) (map (\<lambda>v. if vn_id v = i then f v else v) vs) = Some (f vn)"
  by (induction vs) (auto split: if_splits)

lemma updateStatus_owner:
  assumes "identity env = Some u" and "db_get_voiceNote i d = Some vn" and "userId vn = u"
  shows "\<exists>d'. updateStatus env i st tr em d = Inr d'
           \<and> db_get_voiceNote i d' =
               Some (vn\<lparr>status := st,
                        transcription := (case tr of Some t \<Rightarrow> Some t | None \<Rightarrow> transcription vn),
                        errorMessage := (case em of Some m \<Rightarrow> Some m | None \<Rightarrow> errorMessage vn),
                        vn_updatedAt := dateNow env\<rparr>)
           \<and> canvasNodes d' = canvasNodes d \<and> canvasEdges d' = canvasEdges d
           \<and> nextId d' = nextId d"
proof -
  from assms(2) have mem: "vn \<in> set (voiceNotes d)" and id: "vn_id vn = i"
    using find_Some_mem [of "\<lambda>v. vn_id v = i" "voiceNotes d" vn]
    by (simp_all add: db_get_voiceNote_def)
  then have "i \<in> set (map vn_id (voiceNotes d))"
    by force
  then show ?thesis
    using assms id
      find_patch_voiceNote [of i "voiceNotes d" vn
        "\<lambda>v. v\<lparr>status := st,
                transcription := (case tr of Some t \<Rightarrow> Some t | None \<Rightarrow> transcription v),
                errorMessage := (case em of Some m \<Rightarrow> Some m | None \<Rightarrow> errorMessage v),
                vn_updatedAt := dateNow env\<rparr>"]
    by (simp add: updateStatus_def getAuthenticatedUser_def db_patch_voiceNote_def
        db_get_voiceNote_def)
qed

text \<open>
  C5. When the transcription service answers the run's request with an error, the run
  ends by throwing, the voice note is left in status \<^verbatim>\<open>error\<close> with the message
  \<^verbatim>\<open>Transcription failed: \<close> followed by the service's text, which is not empty, and the
  node table is as it was: no node has been created.
\<close>

theorem process_transcription_failure:
  assumes "identity env = Some u"
    and "db_get_voiceNote v d = Some vn"
    and "userId vn = u"
    and "storageUrl env (fileId vn) = Some url"
    and "url \<noteq> []"
    and "transcribe env url = NotOk errorText"
  shows "\<exists>d' vn'. process env v d = (d', Inl (Error (''Transcription failed: '' @ errorText)))
           \<and> canvasNodes d' = canvasNodes d
           \<and> db_get_voiceNote v d' = Some vn'
           \<and> status vn' = Failed
           \<and> errorMessage vn' = Some (''Transcription failed: '' @ errorText)
           \<and> ''Transcription failed: '' @ errorText \<noteq> []"
proof -
  let ?m = "''Transcription failed: '' @ errorText"
  let ?vn1 = "vn\<lparr>status := Transcribing, vn_updatedAt := dateNow env\<rparr>"
  let ?vn3 = "?vn1\<lparr>status := Failed, errorMessage := Some ?m, vn_updatedAt := dateNow env\<rparr>"
  from updateStatus_owner [OF assms(1-3), where st = Transcribing and tr = None and em = None]
  obtain d1 where u1: "updateStatus env v Transcribing None None d = Inr d1"
    and g1: "db_get_voiceNote v d1 = Some ?vn1"
    and n1: "canvasNodes d1 = canvasNodes d"
    by auto
  have o1: "userId ?vn1 = u"
    using assms(3) by simp
  have pt: "process_try env v vn d1 = (d1, Inl (Error ?m))"
    using assms by (simp add: process_try_def getAudioUrl_def getAuthenticatedUser_def)
  from updateStatus_owner [OF assms(1) g1 o1, where st = Failed and tr = None and em = "Some ?m"]
  obtain d3 where u3: "updateStatus env v Failed None (Some ?m) d1 = Inr d3"
    and g3: "db_get_voiceNote v d3 = Some ?vn3"
    and n3: "canvasNodes d3 = canvasNodes d1"
    by auto
  have "process env v d = (d3, Inl (Error ?m))"
    using assms(1-3) u1 pt u3
    by (simp add: process_def voiceNotes_get_def getAuthenticatedUser_def message_of_def)
  with g3 n3 n1 show ?thesis
    by auto
qed

text \<open>C5, witness: the example run with the failing transcription service.\<close>

theorem process_transcription_failure_witness:
  "process env_no_transcript 0 db_voice =
     (db_voice\<lparr>voiceNotes :=
        [\<lparr>vn_id = 0, userId = ''u'', fileId = 7, duration = 12, transcription = None,
          status = Failed, errorMessage = Some ''Transcription failed: quota exceeded'',
          vn_createdAt = 0, vn_updatedAt = 50\<rparr>]\<rparr>,
      Inl (Error ''Transcription failed: quota exceeded''))"
proof -
  let ?vn = "\<lparr>vn_id = 0, userId = ''u'', fileId = 7, duration = 12, transcription = None,
          status = Uploaded, errorMessage = None, vn_createdAt = 0, vn_updatedAt = 0\<rparr>"
  have a: "identity env_no_transcript = Some ''u''"
    and c: "storageUrl env_no_transcript (fileId ?vn) = Some ''audio''"
    and t: "transcribe env_no_transcript ''audio'' = NotOk ''quota exceeded''"
    by (simp_all add: env_no_transcript_def env_ok_def)
  have u: "''audio'' \<noteq> []"
    by simp
  have g: "db_get_voiceNote 0 db_voice = Some ?vn"
    by (simp add: db_get_voiceNote_def db_voice_def)
  have o: "userId ?vn = ''u''"
    by simp
  have r: "process env_no_transcript 0 db_voice =
     (db_voice\<lparr>voiceNotes :=
        [\<lparr>vn_id = 0, userId = ''u'', fileId = 7, duration = 12, transcription = None,
          status = Failed, errorMessage = Some ''Transcription failed: quota exceeded'',
          vn_createdAt = 0, vn_updatedAt = 50\<rparr>]\<rparr>,
      Inl (Error ''Transcription failed: quota exceeded''))"
    by (simp add: process_def process_try_def voiceNotes_get_def getAuthenticatedUser_def
        updateStatus_def db_get_voiceNote_def db_patch_voiceNote_def getAudioUrl_def
        env_ok_def env_no_transcript_def db_voice_def message_of_def)
  from process_transcription_failure [OF a g o c u t] r show ?thesis
    by simp
qed

lemma link_related_edges:
  "\<exists>new. canvasEdges (fst (link_related env nodeId created rs d)) = canvasEdges d @ new
         \<and> length new \<le> length rs
         \<and> (\<forall>e\<in>set new. source e = nodeId \<and> target e \<noteq> nodeId \<and> target e \<notin> set created)
         \<and> canvasNodes (fst (link_related env nodeId created rs d)) = canvasNodes d
         \<and> nextId d \<le> nextId (fst (link_related env nodeId created rs d))"
proof (induction rs arbitrary: d)
  case Nil
  then show ?case by simp
next
  case (Cons r rs)
  show ?case
  proof (cases r)
    case None
    with Cons.IH [of d] show ?thesis
      by (auto intro: le_SucI)
  next
    case (Some rn)
    show ?thesis
    proof (cases "rel_id rn \<noteq> nodeId \<and> rel_id rn \<notin> set created")
      case False
      with Some Cons.IH [of d] show ?thesis
        by (auto intro: le_SucI)
    next
      case True
      let ?e = "\<lparr>edge_id = nextId d, source = nodeId, target = rel_id rn,
                 label = Some (percent env (score rn)), edge_createdAt = dateNow env\<rparr>"
      let ?d1 = "d\<lparr>canvasEdges := canvasEdges d @ [?e], nextId := Suc (nextId d)\<rparr>"
      have step: "link_related env nodeId created (r # rs) d = link_related env nodeId created rs ?d1"
        using Some True by (simp add: createEdge_def db_insert_edge_def)
      from Cons.IH [of ?d1] obtain new where
        e: "canvasEdges (fst (link_related env nodeId created rs ?d1)) = canvasEdges ?d1 @ new"
        and l: "length new \<le> length rs"
        and p: "\<forall>e\<in>set new. source e = nodeId \<and> target e \<noteq> nodeId \<and> target e \<notin> set created"
        and n: "canvasNodes (fst (link_related env nodeId created rs ?d1)) = canvasNodes ?d1"
        and x: "nextId ?d1 \<le> nextId (fst (link_related env nodeId created rs ?d1))"
        by blast
      have "canvasEdges (fst (link_related env nodeId created (r # rs) d)) = canvasEdges d @ (?e # new)"
        using step e by simp
      moreover have "length (?e # new) \<le> length (r # rs)"
        using l by simp
      moreover have "\<forall>e\<in>set (?e # new). source e = nodeId \<and> target e \<noteq> nodeId \<and> target e \<notin> set created"
        using p True by simp
      moreover have "canvasNodes (fst (link_related env nodeId created (r # rs) d)) = canvasNodes d"
        using step n by simp
      moreover have "nextId d \<le> nextId (fst (link_related env nodeId created (r # rs) d))"
        using step x by simp
      ultimately show ?thesis
        by blast
    qed
  qed
qed

text \<open>
  C7. One invocation of similarity linking with neighbour limit \<open>k\<close> appends at most
  \<open>k\<close> edges, and each of them leaves from the linked node and is not a self-loop.
\<close>

theorem link_by_similarity_bounds:
  "\<exists>new. canvasEdges (fst (link_by_similarity env k nodeId created query d)) = canvasEdges d @ new
         \<and> length new \<le> k
         \<and> (\<forall>e\<in>set new. source e = nodeId \<and> source e \<noteq> target e)"
proof (cases "nearest env d query")
  case (Inl e)
  then show ?thesis
    by (simp add: link_by_similarity_def findRelated_def)
next
  case (Inr ranked)
  then have eq: "link_by_similarity env k nodeId created query d
      = link_related env nodeId created (take k ranked) d"
    by (simp add: link_by_similarity_def findRelated_def)
  from link_related_edges [of env nodeId created "take k ranked" d]
  obtain new where
    "canvasEdges (fst (link_related env nodeId created (take k ranked) d)) = canvasEdges d @ new"
    and "length new \<le> length (take k ranked)"
    and "\<forall>e\<in>set new. source e = nodeId \<and> target e \<noteq> nodeId \<and> target e \<notin> set created"
    by blast
  with eq show ?thesis
    by (intro exI [of _ new]) auto
qed

text \<open>
  C7, witness: note 3 is linked with limit 2 in the store of three embedded notes; the
  index ranks notes 1, 2 and 3, the cut keeps 1 and 2, and two edges are created.
\<close>

theorem link_by_similarity_bounds_witness:
  "\<exists>new. canvasEdges (fst (link_by_similarity env_ok 2 3 [3] ''q'' db_three_embedded)) = new
         \<and> length new = 2
         \<and> map (\<lambda>e. (source e, target e)) new = [(3, 1), (3, 2)]"
proof -
  have r: "map (\<lambda>e. (source e, target e))
      (canvasEdges (fst (link_by_similarity env_ok 2 3 [3] ''q'' db_three_embedded)))
      = [(3, 1), (3, 2)]"
    by (simp add: link_by_similarity_def findRelated_def env_ok_def db_three_embedded_def
        note_doc_def createEdge_def db_insert_edge_def)
  from link_by_similarity_bounds [of env_ok 2 3 "[3]" "''q''" db_three_embedded]
  obtain new where
    e: "canvasEdges (fst (link_by_similarity env_ok 2 3 [3] ''q'' db_three_embedded))
        = canvasEdges db_three_embedded @ new"
    and l: "length new \<le> 2"
    by blast
  from r e have m: "map (\<lambda>e. (source e, target e)) new = [(3, 1), (3, 2)]"
    by (simp add: db_three_embedded_def)
  then have "length (map (\<lambda>e. (source e, target e)) new) = 2"
    by simp
  then have "length new = 2"
    by simp
  with e m show ?thesis
    by (simp add: db_three_embedded_def)
qed





















end
